theory Spec2Isabelle
  imports Main
begin

section \<open>Missionaries and Cannibals: the puzzle model and the game controller\<close>

text \<open>
  A shallow embedding of model.py (GameState, build_state_graph) and of the game logic of
  controller.py (GameController). Python exceptions are values of type \<open>error\<close>: a
  function that can raise returns \<open>error + 'a\<close>, with \<open>Inl\<close> for the exception.
\<close>

subsection \<open>constants.py\<close>

datatype BoatPosition = LEFT | RIGHT

datatype GameScreen = WELCOME | PLAYING | EATING | WON | LOST

subsection \<open>Python values and exceptions\<close>

datatype error = TypeError | ValueError

text \<open>
  The values that GameState.is_valid compares: integers, and bound method objects (the
  attribute access self.missionaries_right, written without call parentheses, yields the
  bound method itself). Python 3 orders two integers as usual; a bound method supports no
  ordering, so a comparison with one raises TypeError.
\<close>

datatype pyval = PyInt int | PyMethod string

fun py_gt :: "pyval \<Rightarrow> pyval \<Rightarrow> error + bool" where
  "py_gt (PyInt a) (PyInt b) = Inr (a > b)"
| "py_gt _ _ = Inl TypeError"

subsection \<open>model.py: GameState\<close>

record GameState =
  missionaries_left :: int
  cannibals_left :: int
  boat :: BoatPosition

definition missionaries_right :: "GameState \<Rightarrow> int" where
  "missionaries_right self = 3 - missionaries_left self"

definition cannibals_right :: "GameState \<Rightarrow> int" where
  "cannibals_right self = 3 - cannibals_left self"

text \<open>
  is_valid: the two range checks and the left-bank check work on integers. The right-bank
  check reads self.missionaries_right and self.cannibals_right without calling them, so
  m_right and c_right are bound methods, and the test "m_right > 0 and c_right > m_right"
  evaluates its first comparison on a method and an integer.
\<close>

definition is_valid :: "GameState \<Rightarrow> error + bool" where
  "is_valid self =
     (if \<not> (0 \<le> missionaries_left self \<and> missionaries_left self \<le> 3) then Inr False
      else if \<not> (0 \<le> cannibals_left self \<and> cannibals_left self \<le> 3) then Inr False
      else
        let m_left = missionaries_left self;
            c_left = cannibals_left self
        in if m_left > 0 \<and> c_left > m_left then Inr False
           else
             let m_right = PyMethod ''missionaries_right'';
                 c_right = PyMethod ''cannibals_right''
             in (case py_gt m_right (PyInt 0) of
                   Inl e \<Rightarrow> Inl e
                 | Inr b1 \<Rightarrow>
                     if b1 then
                       (case py_gt c_right m_right of
                          Inl e \<Rightarrow> Inl e
                        | Inr b2 \<Rightarrow> if b2 then Inr False else Inr True)
                     else Inr True))"

definition is_goal :: "GameState \<Rightarrow> bool" where
  "is_goal self =
     (missionaries_left self = 0 \<and> cannibals_left self = 0 \<and> boat self = RIGHT)"

subsection \<open>model.py: build_state_graph\<close>

type_synonym Move = "int \<times> int"
type_synonym transitions = "(Move \<times> GameState) list"

text \<open>
  The dictionary graph is keyed by GameState objects, which define neither equality nor a
  hash: every key is a distinct object, and the dictionary keeps insertion order. It is an
  association list, one entry per assignment graph[state] = transitions.
\<close>

type_synonym graph = "(GameState \<times> transitions) list"

definition possible_moves :: "Move list" where
  "possible_moves = [(1, 0), (2, 0), (0, 1), (0, 2), (1, 1)]"

text \<open>A for loop whose body may raise: the first exception ends the loop.\<close>

fun for_each :: "('a \<Rightarrow> 's \<Rightarrow> error + 's) \<Rightarrow> 'a list \<Rightarrow> 's \<Rightarrow> error + 's" where
  "for_each body [] s = Inr s"
| "for_each body (x # xs) s =
     (case body x s of Inl e \<Rightarrow> Inl e | Inr s' \<Rightarrow> for_each body xs s')"

text \<open>The last two statements of the loop over possible_moves.\<close>

definition append_if_valid :: "Move \<Rightarrow> GameState \<Rightarrow> transitions \<Rightarrow> error + transitions" where
  "append_if_valid mv new_state ts =
     (case is_valid new_state of
        Inl e \<Rightarrow> Inl e
      | Inr v \<Rightarrow> if v then Inr (ts @ [(mv, new_state)]) else Inr ts)"

text \<open>The body of the loop over possible_moves; continue leaves the list as it is.\<close>

definition move_body ::
  "int \<Rightarrow> int \<Rightarrow> BoatPosition \<Rightarrow> Move \<Rightarrow> transitions \<Rightarrow> error + transitions" where
  "move_body m_left c_left bt mv ts =
     (case mv of (m_move, c_move) \<Rightarrow>
        if bt = LEFT then
          let new_m = m_left - m_move;
              new_c = c_left - c_move;
              new_boat = RIGHT
          in if m_move > m_left \<or> c_move > c_left then Inr ts
             else append_if_valid (m_move, c_move)
                    \<lparr>missionaries_left = new_m, cannibals_left = new_c, boat = new_boat\<rparr> ts
        else
          let new_m = m_left + m_move;
              new_c = c_left + c_move;
              new_boat = LEFT;
              m_right = 3 - m_left;
              c_right = 3 - c_left
          in if m_move > m_right \<or> c_move > c_right then Inr ts
             else append_if_valid (m_move, c_move)
                    \<lparr>missionaries_left = new_m, cannibals_left = new_c, boat = new_boat\<rparr> ts)"

text \<open>The body of the innermost of the three loops over m_left, c_left and boat.\<close>

definition state_body :: "int \<Rightarrow> int \<Rightarrow> BoatPosition \<Rightarrow> graph \<Rightarrow> error + graph" where
  "state_body m_left c_left bt g =
     (let state = \<lparr>missionaries_left = m_left, cannibals_left = c_left, boat = bt\<rparr>
      in case is_valid state of
           Inl e \<Rightarrow> Inl e
         | Inr v \<Rightarrow>
             if \<not> v then Inr g
             else (case for_each (move_body m_left c_left bt) possible_moves [] of
                     Inl e \<Rightarrow> Inl e
                   | Inr ts \<Rightarrow> Inr (g @ [(state, ts)])))"

definition build_state_graph :: "error + graph" where
  "build_state_graph =
     for_each (\<lambda>m_left.
       for_each (\<lambda>c_left.
         for_each (\<lambda>bt. state_body m_left c_left bt) [LEFT, RIGHT])
       [0, 1, 2, 3])
     [0, 1, 2, 3] []"

subsection \<open>model.py: Character and Boat\<close>

text \<open>
  Of a Character the game logic reads and writes char_type, index, side, selected, in_boat
  and being_eaten. The remaining attributes (image, position, target, angle, wobble and
  eating timers, visibility) are floating-point animation data that no decision of the
  logic reads; they are left out, and with them update_position, which only sets the
  target position.
\<close>

record Character =
  char_type :: string
  index :: nat
  side :: string
  selected :: bool
  in_boat :: bool
  being_eaten :: bool

definition Character_init :: "string \<Rightarrow> nat \<Rightarrow> string \<Rightarrow> Character" where
  "Character_init ct i sd =
     \<lparr>char_type = ct, index = i, side = sd, selected = False, in_boat = False,
      being_eaten = False\<rparr>"

text \<open>
  Character objects are shared: the lists missionaries, cannibals, boat.passengers and
  selected_characters hold references to the same objects, and an assignment to an
  attribute is seen through every list. The objects live in a store, a list addressed by
  position, and the four lists hold addresses.
\<close>

type_synonym addr = nat

text \<open>
  Of the Boat the logic uses is_moving and passengers; position, target, wave offset and
  angle are animation data. move_to sets the target and is_moving.
\<close>

record Boat =
  is_moving :: bool
  passengers :: "addr list"

definition Boat_init :: Boat where
  "Boat_init = \<lparr>is_moving = False, passengers = []\<rparr>"

definition move_to :: "BoatPosition \<Rightarrow> Boat \<Rightarrow> Boat" where
  "move_to position b = b\<lparr>is_moving := True\<rparr>"

subsection \<open>controller.py: GameController\<close>

text \<open>
  The attribute self.boat is the field \<open>the_boat\<close> (the name boat is the field of
  GameState). The pygame objects, the images, state_graph (assigned once and never read)
  and the float eating_timer are left out.
\<close>

record GameController =
  state :: GameState
  move_count :: int
  current_screen :: GameScreen
  objects :: "Character list"
  missionaries :: "addr list"
  cannibals :: "addr list"
  the_boat :: Boat
  selected_characters :: "addr list"

text \<open>
  One round of the loop of reset_game: a missionary and a cannibal are created, in this
  order, and appended to their lists. A new object gets the next free address.
\<close>

definition reset_body ::
  "nat \<Rightarrow> Character list \<times> addr list \<times> addr list \<Rightarrow> Character list \<times> addr list \<times> addr list" where
  "reset_body i acc =
     (case acc of (objs, ms, cs) \<Rightarrow>
        let m = Character_init ''missionary'' i ''left'';
            objs1 = objs @ [m];
            c = Character_init ''cannibal'' i ''left'';
            objs2 = objs1 @ [c]
        in (objs2, ms @ [length objs], cs @ [length objs1]))"

text \<open>
  reset_game replaces every list and the boat, so no object of the old store is reachable
  afterwards: the new store holds the six new characters only.
\<close>

definition reset_game :: "GameController \<Rightarrow> GameController" where
  "reset_game self =
     (case fold reset_body [0, 1, 2] ([], [], []) of (objs, ms, cs) \<Rightarrow>
        self\<lparr>state := \<lparr>missionaries_left = 3, cannibals_left = 3, boat = LEFT\<rparr>,
             move_count := 0,
             current_screen := PLAYING,
             objects := objs,
             missionaries := ms,
             cannibals := cs,
             the_boat := Boat_init,
             selected_characters := []\<rparr>)"

definition get_all_characters :: "GameController \<Rightarrow> addr list" where
  "get_all_characters self = missionaries self @ cannibals self"

text \<open>The expression 'left' if self.state.boat == BoatPosition.LEFT else 'right'.\<close>

definition side_name :: "BoatPosition \<Rightarrow> string" where
  "side_name b = (if b = LEFT then ''left'' else ''right'')"

text \<open>list.remove(x): the first occurrence goes; ValueError when there is none.\<close>

definition list_remove :: "'a \<Rightarrow> 'a list \<Rightarrow> error + 'a list" where
  "list_remove x xs = (if x \<in> set xs then Inr (remove1 x xs) else Inl ValueError)"

text \<open>
  handle_character_click receives a Character object; handle_event passes one of
  get_all_characters, so the address ch is that of an object of the store.
\<close>

definition handle_character_click :: "addr \<Rightarrow> GameController \<Rightarrow> error + GameController" where
  "handle_character_click ch self =
     (if is_moving (the_boat self) then Inr self
      else
        let boat_side = side_name (boat (state self));
            c = objects self ! ch
        in if in_boat c then
             let objs = (objects self)[ch := c\<lparr>selected := False, in_boat := False,
                                               side := boat_side\<rparr>]
             in (case list_remove ch (passengers (the_boat self)) of
                   Inl e \<Rightarrow> Inl e
                 | Inr ps \<Rightarrow>
                     (case list_remove ch (selected_characters self) of
                        Inl e \<Rightarrow> Inl e
                      | Inr sel \<Rightarrow>
                          Inr (self\<lparr>objects := objs,
                                    the_boat := (the_boat self)\<lparr>passengers := ps\<rparr>,
                                    selected_characters := sel\<rparr>)))
           else if side c = boat_side \<and> length (passengers (the_boat self)) < 2 then
             Inr (self\<lparr>objects := (objects self)[ch := c\<lparr>selected := True, in_boat := True\<rparr>],
                       the_boat := (the_boat self)
                          \<lparr>passengers := passengers (the_boat self) @ [ch]\<rparr>,
                       selected_characters := selected_characters self @ [ch]\<rparr>)
           else Inr self)"

text \<open>sum(1 for c in self.boat.passengers if c.char_type == t).\<close>

definition count_type :: "string \<Rightarrow> Character list \<Rightarrow> addr list \<Rightarrow> int" where
  "count_type t objs ps = int (length (filter (\<lambda>c. char_type (objs ! c) = t) ps))"

text \<open>The loop "for char in self.boat.passengers: char.side = new_side".\<close>

definition set_sides :: "string \<Rightarrow> addr list \<Rightarrow> Character list \<Rightarrow> Character list" where
  "set_sides new_side ps objs = fold (\<lambda>c os. os[c := (os ! c)\<lparr>side := new_side\<rparr>]) ps objs"

definition try_cross_river :: "GameController \<Rightarrow> GameController" where
  "try_cross_river self =
     (if is_moving (the_boat self) \<or> length (passengers (the_boat self)) = 0 then self
      else
        let m_count = count_type ''missionary'' (objects self) (passengers (the_boat self));
            c_count = count_type ''cannibal'' (objects self) (passengers (the_boat self));
            new_state =
              (if boat (state self) = LEFT then
                 \<lparr>missionaries_left = missionaries_left (state self) - m_count,
                  cannibals_left = cannibals_left (state self) - c_count,
                  boat = RIGHT\<rparr>
               else
                 \<lparr>missionaries_left = missionaries_left (state self) + m_count,
                  cannibals_left = cannibals_left (state self) + c_count,
                  boat = LEFT\<rparr>);
            new_side = side_name (boat new_state)
        in self\<lparr>state := new_state,
                move_count := move_count self + 1,
                the_boat := move_to (boat new_state) (the_boat self),
                objects := set_sides new_side (passengers (the_boat self)) (objects self)\<rparr>)"

text \<open>
  The two tests of start_eating_animation, which calls missionaries_right() and
  cannibals_right(), and the local variable losing_side that they set: the second
  assignment overwrites the first.
\<close>

definition left_unsafe :: "GameState \<Rightarrow> bool" where
  "left_unsafe s = (missionaries_left s > 0 \<and> cannibals_left s > missionaries_left s)"

definition right_unsafe :: "GameState \<Rightarrow> bool" where
  "right_unsafe s = (missionaries_right s > 0 \<and> cannibals_right s > missionaries_right s)"

definition losing_side :: "GameState \<Rightarrow> string option" where
  "losing_side s =
     (let l0 = None;
          l1 = (if left_unsafe s then Some ''left'' else l0);
          l2 = (if right_unsafe s then Some ''right'' else l1)
      in l2)"

text \<open>The loop "for m in self.missionaries: if m.side == losing_side: m.being_eaten = True".\<close>

definition mark_eaten :: "string option \<Rightarrow> addr list \<Rightarrow> Character list \<Rightarrow> Character list" where
  "mark_eaten ls ms objs =
     fold (\<lambda>m os. if Some (side (os ! m)) = ls then os[m := (os ! m)\<lparr>being_eaten := True\<rparr>] else os)
       ms objs"

definition start_eating_animation :: "GameController \<Rightarrow> GameController" where
  "start_eating_animation self =
     self\<lparr>current_screen := EATING,
          objects := mark_eaten (losing_side (state self)) (missionaries self) (objects self)\<rparr>"

text \<open>The loop of finish_crossing over a copy of the passenger list.\<close>

definition leave_boat :: "addr list \<Rightarrow> Character list \<Rightarrow> Character list" where
  "leave_boat ps objs = fold (\<lambda>c os. os[c := (os ! c)\<lparr>in_boat := False, selected := False\<rparr>]) ps objs"

definition finish_crossing :: "GameController \<Rightarrow> error + GameController" where
  "finish_crossing self =
     (let self1 = self\<lparr>objects := leave_boat (passengers (the_boat self)) (objects self),
                       the_boat := (the_boat self)\<lparr>passengers := []\<rparr>,
                       selected_characters := []\<rparr>
      in if is_goal (state self1) then Inr (self1\<lparr>current_screen := WON\<rparr>)
         else (case is_valid (state self1) of
                 Inl e \<Rightarrow> Inl e
               | Inr v \<Rightarrow> if \<not> v then Inr (start_eating_animation self1) else Inr self1))"

text \<open>
  GameController.update, once per frame. On the PLAYING screen it advances the boat and,
  on the frame on which the boat stops (is_moving goes from True to False), calls
  finish_crossing; an exception of finish_crossing leaves update and ends the program. On
  the EATING screen it adds the frame time to eating_timer and enters LOST once the timer
  has reached EATING_DURATION + 0.5. Positions and timers are floats and not modelled;
  update_arrival is the frame on which a moving boat stops (on any other frame of the
  PLAYING screen no modelled attribute changes), and the step to LOST is the rule eaten
  of the relation below.
\<close>

definition boat_stops :: "GameController \<Rightarrow> GameController" where
  "boat_stops self = self\<lparr>the_boat := (the_boat self)\<lparr>is_moving := False\<rparr>\<rparr>"

definition update_arrival :: "GameController \<Rightarrow> error + GameController" where
  "update_arrival self =
     (if current_screen self = PLAYING \<and> is_moving (the_boat self)
      then finish_crossing (boat_stops self)
      else Inr self)"

text \<open>
  The attributes of the controller before its first reset_game, which assigns every one
  of them. GameController.__init__ builds the state graph first, then calls reset_game
  and shows the welcome screen.
\<close>

definition blank_controller :: GameController where
  "blank_controller =
     \<lparr>state = \<lparr>missionaries_left = 0, cannibals_left = 0, boat = LEFT\<rparr>,
      move_count = 0, current_screen = WELCOME, objects = [], missionaries = [],
      cannibals = [], the_boat = Boat_init, selected_characters = []\<rparr>"

definition GameController_init :: "error + GameController" where
  "GameController_init =
     (case build_state_graph of
        Inl e \<Rightarrow> Inl e
      | Inr state_graph \<Rightarrow> Inr ((reset_game blank_controller)\<lparr>current_screen := WELCOME\<rparr>))"

subsection \<open>Runs of the game\<close>

text \<open>
  A run is a sequence of calls on the controller: a click on a character
  (handle_character_click), a click on the boat or the space bar (try_cross_river), and
  the frame on which the boat stops. An exception ends the run.
\<close>

datatype call = Click addr | Cross | Arrive

fun do_call :: "call \<Rightarrow> GameController \<Rightarrow> error + GameController" where
  "do_call (Click ch) self = handle_character_click ch self"
| "do_call Cross self = Inr (try_cross_river self)"
| "do_call Arrive self = update_arrival self"

definition run :: "call list \<Rightarrow> GameController \<Rightarrow> error + GameController" where
  "run calls self = for_each do_call calls self"

text \<open>
  The states of a game: those that a reset, a click on one of the six characters, a
  crossing attempt, the arrival of the boat and the end of the eating animation lead to.
  handle_event calls handle_character_click and try_cross_river on the PLAYING screen
  only; the rules here do not look at the screen, which allows more states.
\<close>

inductive reachable :: "GameController \<Rightarrow> bool" where
  reset: "reachable (reset_game self)"
| click: "reachable s \<Longrightarrow> ch \<in> set (get_all_characters s) \<Longrightarrow>
          handle_character_click ch s = Inr s' \<Longrightarrow> reachable s'"
| cross: "reachable s \<Longrightarrow> reachable (try_cross_river s)"
| arrive: "reachable s \<Longrightarrow> update_arrival s = Inr s' \<Longrightarrow> reachable s'"
| eaten: "reachable s \<Longrightarrow> current_screen s = EATING \<Longrightarrow>
          reachable (s\<lparr>current_screen := LOST\<rparr>)"

subsection \<open>The invariant of the game states\<close>

text \<open>The number of characters of a list that stand on the left bank.\<close>

definition count_left :: "Character list \<Rightarrow> addr list \<Rightarrow> int" where
  "count_left objs as = int (length (filter (\<lambda>a. side (objs ! a) = ''left'') as))"

text \<open>
  Three missionaries and three cannibals, all distinct objects of the store; the
  passengers are distinct characters, are exactly the characters with in_boat set and
  the selected ones, and carry the side of the boat; the two counts of the GameState are
  the numbers of missionaries and cannibals whose side is 'left'.
\<close>

definition wf :: "GameController \<Rightarrow> bool" where
  "wf s \<longleftrightarrow>
     length (missionaries s) = 3 \<and> length (cannibals s) = 3
   \<and> distinct (get_all_characters s)
   \<and> (\<forall>a \<in> set (get_all_characters s). a < length (objects s))
   \<and> (\<forall>a \<in> set (missionaries s). char_type (objects s ! a) = ''missionary'')
   \<and> (\<forall>a \<in> set (cannibals s). char_type (objects s ! a) = ''cannibal'')
   \<and> distinct (passengers (the_boat s))
   \<and> set (passengers (the_boat s)) \<subseteq> set (get_all_characters s)
   \<and> selected_characters s = passengers (the_boat s)
   \<and> (\<forall>a \<in> set (get_all_characters s).
         in_boat (objects s ! a) \<longleftrightarrow> a \<in> set (passengers (the_boat s)))
   \<and> (\<forall>a \<in> set (passengers (the_boat s)).
         side (objects s ! a) = side_name (boat (state s)))
   \<and> missionaries_left (state s) = count_left (objects s) (missionaries s)
   \<and> cannibals_left (state s) = count_left (objects s) (cannibals s)"

section \<open>Properties\<close>

subsection \<open>GameState.is_valid\<close>

lemma is_valid_never_True: "is_valid s \<noteq> Inr True"
  by (simp add: is_valid_def Let_def)

lemma is_valid_False_iff:
  "is_valid s = Inr False \<longleftrightarrow>
     \<not> (0 \<le> missionaries_left s \<and> missionaries_left s \<le> 3)
   \<or> \<not> (0 \<le> cannibals_left s \<and> cannibals_left s \<le> 3)
   \<or> (missionaries_left s > 0 \<and> cannibals_left s > missionaries_left s)"
  by (simp add: is_valid_def Let_def)

lemma is_valid_raises_iff:
  "is_valid s = Inl TypeError \<longleftrightarrow>
     0 \<le> missionaries_left s \<and> missionaries_left s \<le> 3
   \<and> 0 \<le> cannibals_left s \<and> cannibals_left s \<le> 3
   \<and> \<not> (missionaries_left s > 0 \<and> cannibals_left s > missionaries_left s)"
  by (auto simp add: is_valid_def Let_def)

text \<open>
  C1: is_valid is to return False exactly when a bank, left or right, holds missionaries
  and more cannibals than missionaries. On GameState(2, 1, LEFT) the right bank holds one
  missionary and two cannibals; the call does not return False, it raises TypeError at the
  comparison of the bound method missionaries_right with 0.
\<close>

theorem is_valid_right_bank_raises:
  "missionaries_right \<lparr>missionaries_left = 2, cannibals_left = 1, boat = LEFT\<rparr> = 1
   \<and> cannibals_right \<lparr>missionaries_left = 2, cannibals_left = 1, boat = LEFT\<rparr> = 2
   \<and> is_valid \<lparr>missionaries_left = 2, cannibals_left = 1, boat = LEFT\<rparr> = Inl TypeError"
  by (simp add: is_valid_def missionaries_right_def cannibals_right_def)

subsection \<open>build_state_graph\<close>

text \<open>
  C4: build_state_graph is to record, for every safe configuration, the candidate moves
  that the departure bank can supply and whose result is safe. The first configuration of
  the enumeration is GameState(0, 0, LEFT); its is_valid call raises TypeError, which ends
  the construction: no edge is recorded for any configuration.
\<close>

theorem build_state_graph_raises: "build_state_graph = Inl TypeError"
  by (simp add: build_state_graph_def state_body_def is_valid_def)

lemma GameController_init_raises: "GameController_init = Inl TypeError"
  by (simp add: GameController_init_def build_state_graph_def state_body_def is_valid_def)

subsection \<open>The loops over the store\<close>

lemma set_sides_length [simp]: "length (set_sides sd ps objs) = length objs"
  unfolding set_sides_def by (induction ps arbitrary: objs) auto

lemma set_sides_nth:
  "a < length objs \<Longrightarrow>
   set_sides sd ps objs ! a = (if a \<in> set ps then (objs ! a)\<lparr>side := sd\<rparr> else objs ! a)"
  unfolding set_sides_def
proof (induction ps arbitrary: objs)
  case Nil
  show ?case by simp
next
  case (Cons p ps)
  show ?case using Cons.IH[of "objs[p := (objs ! p)\<lparr>side := sd\<rparr>]"] Cons.prems
    by (cases "p = a") auto
qed

lemma leave_boat_length [simp]: "length (leave_boat ps objs) = length objs"
  unfolding leave_boat_def by (induction ps arbitrary: objs) auto

lemma leave_boat_nth:
  "a < length objs \<Longrightarrow>
   leave_boat ps objs ! a =
     (if a \<in> set ps then (objs ! a)\<lparr>in_boat := False, selected := False\<rparr> else objs ! a)"
  unfolding leave_boat_def
proof (induction ps arbitrary: objs)
  case Nil
  show ?case by simp
next
  case (Cons p ps)
  show ?case
    using Cons.IH[of "objs[p := (objs ! p)\<lparr>in_boat := False, selected := False\<rparr>]"] Cons.prems
    by (cases "p = a") auto
qed

lemma mark_eaten_length [simp]: "length (mark_eaten ls ms objs) = length objs"
  unfolding mark_eaten_def by (induction ms arbitrary: objs) auto

lemma mark_eaten_nth:
  "a < length objs \<Longrightarrow>
   \<exists>b. mark_eaten ls ms objs ! a = (objs ! a)\<lparr>being_eaten := b\<rparr>"
  unfolding mark_eaten_def
proof (induction ms arbitrary: objs)
  case Nil
  show ?case by (auto intro: exI[of _ "being_eaten (objs ! a)"])
next
  case (Cons m ms)
  show ?case
  proof (cases "Some (side (objs ! m)) = ls")
    case True
    from Cons.IH[of "objs[m := (objs ! m)\<lparr>being_eaten := True\<rparr>]"] Cons.prems
    obtain b where "fold (\<lambda>m os. if Some (side (os ! m)) = ls then os[m := (os ! m)\<lparr>being_eaten := True\<rparr>] else os) ms (objs[m := (objs ! m)\<lparr>being_eaten := True\<rparr>]) ! a = (objs[m := (objs ! m)\<lparr>being_eaten := True\<rparr>] ! a)\<lparr>being_eaten := b\<rparr>"
      by auto
    with True Cons.prems show ?thesis by (cases "m = a") auto
  next
    case False
    with Cons.IH[of objs] Cons.prems show ?thesis by auto
  qed
qed

subsection \<open>Counting the characters of a bank\<close>

lemma count_moved_away:
  assumes "distinct ps" "distinct as"
    and "\<forall>a \<in> set ps. P a"
  shows "length (filter (\<lambda>a. P a \<and> a \<notin> set ps) as) + length (filter (\<lambda>a. a \<in> set as) ps)
         = length (filter P as)"
proof -
  let ?A = "{a. P a \<and> a \<notin> set ps} \<inter> set as"
  let ?B = "{a. a \<in> set as} \<inter> set ps"
  have "?A \<union> ?B = {a. P a} \<inter> set as" using assms(3) by auto
  moreover have "?A \<inter> ?B = {}" by auto
  moreover have "finite ?A" "finite ?B" by auto
  ultimately have "card ?A + card ?B = card ({a. P a} \<inter> set as)"
    using card_Un_disjoint[of ?A ?B] by simp
  then show ?thesis using assms(1,2) by (simp add: distinct_length_filter)
qed

lemma count_moved_in:
  assumes "distinct ps" "distinct as"
    and "\<forall>a \<in> set ps. \<not> P a"
  shows "length (filter (\<lambda>a. P a \<or> a \<in> set ps) as)
         = length (filter P as) + length (filter (\<lambda>a. a \<in> set as) ps)"
proof -
  let ?A = "{a. P a} \<inter> set as"
  let ?B = "{a. a \<in> set as} \<inter> set ps"
  have "?A \<union> ?B = {a. P a \<or> a \<in> set ps} \<inter> set as" by auto
  moreover have "?A \<inter> ?B = {}" using assms(3) by auto
  moreover have "finite ?A" "finite ?B" by auto
  ultimately have "card ?A + card ?B = card ({a. P a \<or> a \<in> set ps} \<inter> set as)"
    using card_Un_disjoint[of ?A ?B] by simp
  then show ?thesis using assms(1,2) by (simp add: distinct_length_filter)
qed

lemma count_left_set_sides:
  assumes "\<forall>a \<in> set as. a < length objs"
  shows "count_left (set_sides sd ps objs) as =
         int (length (filter (\<lambda>a. if a \<in> set ps then sd = ''left'' else side (objs ! a) = ''left'') as))"
  unfolding count_left_def using assms
  by (auto simp: set_sides_nth intro!: filter_cong arg_cong[where f=length])

lemma count_left_cross_LEFT:
  assumes "distinct ps" "distinct as" "\<forall>a \<in> set as. a < length objs"
    and "\<forall>a \<in> set ps. side (objs ! a) = ''left''"
  shows "count_left (set_sides ''right'' ps objs) as =
         count_left objs as - int (length (filter (\<lambda>a. a \<in> set as) ps))"
proof -
  have "count_left (set_sides ''right'' ps objs) as =
        int (length (filter (\<lambda>a. side (objs ! a) = ''left'' \<and> a \<notin> set ps) as))"
    using assms(3) by (auto simp: count_left_set_sides intro!: filter_cong arg_cong[where f=length])
  with count_moved_away[OF assms(1,2), of "\<lambda>a. side (objs ! a) = ''left''"] assms(4)
  show ?thesis by (simp add: count_left_def)
qed

lemma count_left_cross_RIGHT:
  assumes "distinct ps" "distinct as" "\<forall>a \<in> set as. a < length objs"
    and "\<forall>a \<in> set ps. side (objs ! a) = ''right''"
  shows "count_left (set_sides ''left'' ps objs) as =
         count_left objs as + int (length (filter (\<lambda>a. a \<in> set as) ps))"
proof -
  have "count_left (set_sides ''left'' ps objs) as =
        int (length (filter (\<lambda>a. side (objs ! a) = ''left'' \<or> a \<in> set ps) as))"
    using assms(3) by (auto simp: count_left_set_sides intro!: filter_cong arg_cong[where f=length])
  with count_moved_in[OF assms(1,2), of "\<lambda>a. side (objs ! a) = ''left''"] assms(4)
  show ?thesis by (simp add: count_left_def)
qed

lemma count_type_missionary:
  assumes "wf s"
  shows "count_type ''missionary'' (objects s) (passengers (the_boat s)) =
         int (length (filter (\<lambda>a. a \<in> set (missionaries s)) (passengers (the_boat s))))"
  unfolding count_type_def using assms
  by (auto simp: wf_def get_all_characters_def intro!: filter_cong arg_cong[where f=length])

lemma count_type_cannibal:
  assumes "wf s"
  shows "count_type ''cannibal'' (objects s) (passengers (the_boat s)) =
         int (length (filter (\<lambda>a. a \<in> set (cannibals s)) (passengers (the_boat s))))"
  unfolding count_type_def using assms
  by (auto simp: wf_def get_all_characters_def intro!: filter_cong arg_cong[where f=length])


subsection \<open>The invariant holds in every state of a game\<close>

lemma reset_game_simps:
  "objects (reset_game self) =
     [Character_init ''missionary'' 0 ''left'', Character_init ''cannibal'' 0 ''left'',
      Character_init ''missionary'' 1 ''left'', Character_init ''cannibal'' 1 ''left'',
      Character_init ''missionary'' 2 ''left'', Character_init ''cannibal'' 2 ''left'']"
  "missionaries (reset_game self) = [0, 2, 4]"
  "cannibals (reset_game self) = [1, 3, 5]"
  "state (reset_game self) = \<lparr>missionaries_left = 3, cannibals_left = 3, boat = LEFT\<rparr>"
  "the_boat (reset_game self) = \<lparr>is_moving = False, passengers = []\<rparr>"
  "selected_characters (reset_game self) = []"
  "move_count (reset_game self) = 0"
  "current_screen (reset_game self) = PLAYING"
  by (simp_all add: reset_game_def reset_body_def Boat_init_def)

lemma wf_reset: "wf (reset_game self)"
  by (simp add: wf_def reset_game_simps get_all_characters_def count_left_def
      Character_init_def side_name_def)

lemma wf_cross:
  assumes "wf s"
  shows "wf (try_cross_river s)"
proof (cases "is_moving (the_boat s) \<or> length (passengers (the_boat s)) = 0")
  case True
  then show ?thesis using assms by (simp add: try_cross_river_def)
next
  case False
  let ?ps = "passengers (the_boat s)"
  from assms have d: "distinct ?ps" "distinct (missionaries s)" "distinct (cannibals s)"
    and v: "\<forall>a \<in> set (missionaries s). a < length (objects s)"
           "\<forall>a \<in> set (cannibals s). a < length (objects s)"
    and sd: "\<forall>a \<in> set ?ps. side (objects s ! a) = side_name (boat (state s))"
    by (auto simp: wf_def get_all_characters_def)
  show ?thesis
  proof (cases "boat (state s) = LEFT")
    case True
    with sd have l: "\<forall>a \<in> set ?ps. side (objects s ! a) = ''left''"
      by (simp add: side_name_def)
    have m: "count_left (set_sides ''right'' ?ps (objects s)) (missionaries s) =
             missionaries_left (state s) - count_type ''missionary'' (objects s) ?ps"
      using count_left_cross_LEFT[OF d(1) d(2) v(1) l] assms
      by (simp add: count_type_missionary) (simp add: wf_def)
    have c: "count_left (set_sides ''right'' ?ps (objects s)) (cannibals s) =
             cannibals_left (state s) - count_type ''cannibal'' (objects s) ?ps"
      using count_left_cross_LEFT[OF d(1) d(3) v(2) l] assms
      by (simp add: count_type_cannibal) (simp add: wf_def)
    show ?thesis using assms False True m c
      by (auto simp: wf_def try_cross_river_def Let_def move_to_def side_name_def
          get_all_characters_def set_sides_nth)
  next
    case R: False
    with sd have l: "\<forall>a \<in> set ?ps. side (objects s ! a) = ''right''"
      by (simp add: side_name_def)
    have m: "count_left (set_sides ''left'' ?ps (objects s)) (missionaries s) =
             missionaries_left (state s) + count_type ''missionary'' (objects s) ?ps"
      using count_left_cross_RIGHT[OF d(1) d(2) v(1) l] assms
      by (simp add: count_type_missionary) (simp add: wf_def)
    have c: "count_left (set_sides ''left'' ?ps (objects s)) (cannibals s) =
             cannibals_left (state s) + count_type ''cannibal'' (objects s) ?ps"
      using count_left_cross_RIGHT[OF d(1) d(3) v(2) l] assms
      by (simp add: count_type_cannibal) (simp add: wf_def)
    show ?thesis using assms False R m c
      by (auto simp: wf_def try_cross_river_def Let_def move_to_def side_name_def
          get_all_characters_def set_sides_nth)
  qed
qed


lemma count_left_update:
  assumes "side c' = side (objs ! ch)"
  shows "count_left (objs[ch := c']) as = count_left objs as"
proof (cases "ch < length objs")
  case True
  have "filter (\<lambda>a. side (objs[ch := c'] ! a) = ''left'') as =
        filter (\<lambda>a. side (objs ! a) = ''left'') as"
    using assms True by (intro filter_cong) (auto simp: nth_list_update)
  then show ?thesis by (simp add: count_left_def)
next
  case False
  then show ?thesis by (simp add: list_update_beyond)
qed

lemma click_returns:
  assumes "wf s" "ch \<in> set (get_all_characters s)"
  shows "\<exists>s'. handle_character_click ch s = Inr s'"
  using assms
  by (auto simp: handle_character_click_def Let_def list_remove_def wf_def)

lemma wf_click:
  assumes "wf s" "ch \<in> set (get_all_characters s)" "handle_character_click ch s = Inr s'"
  shows "wf s'"
proof (cases "is_moving (the_boat s)")
  case True
  with assms show ?thesis by (simp add: handle_character_click_def)
next
  case False
  let ?c = "objects s ! ch"
  from assms(1,2) have len: "ch < length (objects s)" by (simp add: wf_def)
  show ?thesis
  proof (cases "in_boat ?c")
    case True
    with assms(1,2) have inp: "ch \<in> set (passengers (the_boat s))"
      and insel: "ch \<in> set (selected_characters s)"
      and sd: "side ?c = side_name (boat (state s))"
      by (auto simp: wf_def)
    from assms(3) False True inp insel
    have s': "s' = s\<lparr>objects := (objects s)[ch := ?c\<lparr>selected := False, in_boat := False,
                                   side := side_name (boat (state s))\<rparr>],
                    the_boat := (the_boat s)\<lparr>passengers := remove1 ch (passengers (the_boat s))\<rparr>,
                    selected_characters := remove1 ch (selected_characters s)\<rparr>"
      by (simp add: handle_character_click_def Let_def list_remove_def)
    show ?thesis using assms(1) len sd inp unfolding s'
      by (auto simp: wf_def get_all_characters_def nth_list_update count_left_update)
  next
    case nb: False
    show ?thesis
    proof (cases "side ?c = side_name (boat (state s)) \<and> length (passengers (the_boat s)) < 2")
      case True
      from assms(1,2) nb have notin: "ch \<notin> set (passengers (the_boat s))"
        by (auto simp: wf_def)
      from assms(3) False nb True
      have s': "s' = s\<lparr>objects := (objects s)[ch := ?c\<lparr>selected := True, in_boat := True\<rparr>],
                      the_boat := (the_boat s)\<lparr>passengers := passengers (the_boat s) @ [ch]\<rparr>,
                      selected_characters := selected_characters s @ [ch]\<rparr>"
        by (simp add: handle_character_click_def Let_def)
      show ?thesis using assms(1,2) len True notin unfolding s'
        by (auto simp: wf_def get_all_characters_def nth_list_update count_left_update)
    next
      case False
      with assms \<open>\<not> is_moving (the_boat s)\<close> nb show ?thesis
        by (auto simp: handle_character_click_def Let_def)
    qed
  qed
qed

lemma count_left_cong:
  assumes "\<forall>a \<in> set as. side (objs' ! a) = side (objs ! a)"
  shows "count_left objs' as = count_left objs as"
proof -
  have "filter (\<lambda>a. side (objs' ! a) = ''left'') as = filter (\<lambda>a. side (objs ! a) = ''left'') as"
    using assms by (intro filter_cong) auto
  then show ?thesis by (simp add: count_left_def)
qed

lemma mark_eaten_fields:
  assumes "a < length objs"
  shows "side (mark_eaten ls ms objs ! a) = side (objs ! a)"
    and "char_type (mark_eaten ls ms objs ! a) = char_type (objs ! a)"
    and "in_boat (mark_eaten ls ms objs ! a) = in_boat (objs ! a)"
  using mark_eaten_nth[OF assms, of ls ms] by auto

lemma wf_start_eating:
  assumes "wf s"
  shows "wf (start_eating_animation s)"
proof -
  have "count_left (mark_eaten (losing_side (state s)) (missionaries s) (objects s)) (missionaries s)
        = count_left (objects s) (missionaries s)"
       "count_left (mark_eaten (losing_side (state s)) (missionaries s) (objects s)) (cannibals s)
        = count_left (objects s) (cannibals s)"
    using assms by (auto intro!: count_left_cong simp: mark_eaten_fields wf_def get_all_characters_def)
  then show ?thesis using assms
    by (auto simp: wf_def start_eating_animation_def get_all_characters_def mark_eaten_fields)
qed

lemma wf_finish:
  assumes "wf s" "finish_crossing (boat_stops s) = Inr s'"
  shows "wf s'"
proof -
  let ?s1 = "s\<lparr>objects := leave_boat (passengers (the_boat s)) (objects s),
               the_boat := (the_boat s)\<lparr>is_moving := False, passengers := []\<rparr>,
               selected_characters := []\<rparr>"
  have c: "count_left (leave_boat (passengers (the_boat s)) (objects s)) (missionaries s)
        = count_left (objects s) (missionaries s)"
       "count_left (leave_boat (passengers (the_boat s)) (objects s)) (cannibals s)
        = count_left (objects s) (cannibals s)"
    using assms(1) by (auto intro!: count_left_cong simp: leave_boat_nth wf_def get_all_characters_def)
  have w1: "wf ?s1" using assms(1) c
    by (auto simp: wf_def get_all_characters_def leave_boat_nth)
  then have w2: "wf (?s1\<lparr>current_screen := WON\<rparr>)" by (simp add: wf_def get_all_characters_def)
  from assms(2) have "s' = ?s1\<lparr>current_screen := WON\<rparr> \<or> s' = start_eating_animation ?s1 \<or> s' = ?s1"
    by (auto simp: finish_crossing_def boat_stops_def Let_def split: if_splits sum.splits)
  with w1 w2 wf_start_eating[OF w1] show ?thesis by auto
qed

lemma wf_arrival:
  assumes "wf s" "update_arrival s = Inr s'"
  shows "wf s'"
  using assms wf_finish[of s s'] by (auto simp: update_arrival_def split: if_splits)

lemma reachable_wf: "reachable s \<Longrightarrow> wf s"
proof (induction rule: reachable.induct)
  case (reset self)
  show ?case by (rule wf_reset)
next
  case (click s ch s')
  then show ?case by (blast intro: wf_click)
next
  case (cross s)
  then show ?case by (blast intro: wf_cross)
next
  case (arrive s s')
  then show ?case by (blast intro: wf_arrival)
next
  case (eaten s)
  then show ?case by (simp add: wf_def get_all_characters_def)
qed

lemma count_left_bounds: "0 \<le> count_left objs as \<and> count_left objs as \<le> int (length as)"
  by (simp add: count_left_def)

subsection \<open>The two bank tests\<close>

lemma unsafe_banks_exclusive: "\<not> (left_unsafe t \<and> right_unsafe t)"
  by (auto simp: left_unsafe_def right_unsafe_def missionaries_right_def cannibals_right_def)

lemma right_bank_loss_raises:
  assumes "right_unsafe (state s)"
    and "0 \<le> missionaries_left (state s)" "0 \<le> cannibals_left (state s)"
  shows "finish_crossing s = Inl TypeError"
proof -
  from assms have "is_valid (state s) = Inl TypeError"
    by (auto simp: is_valid_raises_iff right_unsafe_def missionaries_right_def
        cannibals_right_def)
  moreover from assms(1) have "\<not> is_goal (state s)"
    by (auto simp: is_goal_def right_unsafe_def missionaries_right_def cannibals_right_def)
  ultimately show ?thesis by (simp add: finish_crossing_def Let_def)
qed

subsection \<open>Evaluating runs\<close>

lemmas run_simps = run_def handle_character_click_def reset_game_simps Character_init_def
  side_name_def list_remove_def try_cross_river_def count_type_def move_to_def set_sides_def
  update_arrival_def boat_stops_def finish_crossing_def is_goal_def Let_def

lemma finish_crossing_WON_or_EATING:
  assumes "finish_crossing s = Inr s'"
  shows "current_screen s' = WON \<or> current_screen s' = EATING"
proof (cases "is_goal (state s)")
  case True
  with assms show ?thesis by (auto simp: finish_crossing_def Let_def)
next
  case False
  with assms is_valid_never_True[of "state s"] show ?thesis
    by (auto simp: finish_crossing_def Let_def start_eating_animation_def
        split: sum.splits if_splits)
qed

lemma try_cross_river_empty_boat:
  "passengers (the_boat s) = [] \<Longrightarrow> try_cross_river s = s"
  by (simp add: try_cross_river_def)

section \<open>Properties of the controller\<close>

subsection \<open>try_cross_river\<close>

text \<open>
  C2, as stated: a crossing whose tallied pair is not a recorded edge is rejected and
  leaves the state unchanged. From (3, 3, LEFT) the loop body of build_state_graph
  records no edge for the pair (1, 0): its result (2, 3, RIGHT) fails is_valid. With one
  missionary boarded, try_cross_river nevertheless commits that crossing: the
  configuration becomes (2, 3, RIGHT) and the move counter 1.
\<close>

theorem unsafe_move_committed:
  "move_body 3 3 LEFT (1, 0) [] = Inr []
   \<and> move_count (reset_game blank_controller) = 0
   \<and> map_sum id state (run [Click 0, Cross] (reset_game blank_controller))
       = Inr \<lparr>missionaries_left = 2, cannibals_left = 3, boat = RIGHT\<rparr>
   \<and> map_sum id move_count (run [Click 0, Cross] (reset_game blank_controller)) = Inr 1"
  by (simp add: run_simps move_body_def append_if_valid_def is_valid_def)

text \<open>
  C2, amended: try_cross_river consults no state graph and rejects nothing. Whenever the
  boat is not moving and at least one passenger is boarded, the crossing is committed,
  whatever the tallied pair: the move counter grows by one, the boat changes side, the
  left-bank counts decrease by the tallied pair when the boat leaves the left bank and
  increase by it when the boat leaves the right bank, the boat starts moving with its
  passengers, and the screen stays as it is. The state is left unchanged only when the
  boat is moving or no passenger is boarded.
\<close>

theorem try_cross_river_commits:
  "(\<not> is_moving (the_boat s) \<and> passengers (the_boat s) \<noteq> [] \<longrightarrow>
      move_count (try_cross_river s) = move_count s + 1
    \<and> boat (state (try_cross_river s)) = (if boat (state s) = LEFT then RIGHT else LEFT)
    \<and> missionaries_left (state (try_cross_river s)) =
        (if boat (state s) = LEFT
         then missionaries_left (state s)
              - count_type ''missionary'' (objects s) (passengers (the_boat s))
         else missionaries_left (state s)
              + count_type ''missionary'' (objects s) (passengers (the_boat s)))
    \<and> cannibals_left (state (try_cross_river s)) =
        (if boat (state s) = LEFT
         then cannibals_left (state s)
              - count_type ''cannibal'' (objects s) (passengers (the_boat s))
         else cannibals_left (state s)
              + count_type ''cannibal'' (objects s) (passengers (the_boat s)))
    \<and> is_moving (the_boat (try_cross_river s))
    \<and> passengers (the_boat (try_cross_river s)) = passengers (the_boat s)
    \<and> current_screen (try_cross_river s) = current_screen s)
   \<and> (is_moving (the_boat s) \<or> passengers (the_boat s) = [] \<longrightarrow> try_cross_river s = s)"
  by (simp add: try_cross_river_def Let_def move_to_def)

text \<open>
  The two cases at the start of a game: with nothing boarded the call changes nothing,
  and with the first missionary boarded it commits the crossing to (2, 3, RIGHT).
\<close>

theorem try_cross_river_commits_witness:
  "passengers (the_boat (reset_game blank_controller)) = []
   \<and> try_cross_river (reset_game blank_controller) = reset_game blank_controller
   \<and> \<not> is_moving (the_boat (projr (run [Click 0] (reset_game blank_controller))))
   \<and> passengers (the_boat (projr (run [Click 0] (reset_game blank_controller)))) = [0]
   \<and> move_count (try_cross_river (projr (run [Click 0] (reset_game blank_controller)))) = 1
   \<and> missionaries_left
        (state (try_cross_river (projr (run [Click 0] (reset_game blank_controller))))) = 2"
  using try_cross_river_commits[of "reset_game blank_controller"]
    try_cross_river_commits[of "projr (run [Click 0] (reset_game blank_controller))"]
  by (simp add: run_simps)

text \<open>
  C6: after a committed crossing at most one bank is unsafe: the two tests of
  start_eating_animation, for the left and for the right bank, never hold together on
  the configuration that try_cross_river leaves.
\<close>

theorem at_most_one_unsafe_bank:
  "\<not> (left_unsafe (state (try_cross_river s)) \<and> right_unsafe (state (try_cross_river s)))"
  by (rule unsafe_banks_exclusive)

text \<open>
  C9: after reset_game, clicks on the first two cannibals (addresses 1 and 3) and a
  crossing attempt, the crossing is to end with the configuration (3, 1, RIGHT), move
  count 1 and the game still being played. try_cross_river commits the configuration
  (3, 1, RIGHT) and move count 1 and leaves the screen as it is, but on the frame on
  which the boat arrives finish_crossing calls is_valid on (3, 1, RIGHT), which raises
  TypeError: the outcome of the crossing is never evaluated.
\<close>

theorem two_cannibals_cross_raises_on_arrival:
  "cannibals (reset_game self) = [1, 3, 5]
   \<and> map_sum id state (run [Click 1, Click 3, Cross] (reset_game self))
       = Inr \<lparr>missionaries_left = 3, cannibals_left = 1, boat = RIGHT\<rparr>
   \<and> map_sum id current_screen (run [Click 1, Click 3, Cross] (reset_game self)) = Inr PLAYING
   \<and> map_sum id move_count (run [Click 1, Click 3, Cross] (reset_game self)) = Inr 1
   \<and> map_sum id (is_moving \<circ> the_boat) (run [Click 1, Click 3, Cross] (reset_game self))
       = Inr True
   \<and> run [Click 1, Click 3, Cross, Arrive] (reset_game self) = Inl TypeError"
  by (simp add: run_simps is_valid_def)

subsection \<open>Losing\<close>

text \<open>
  C3, as stated: the session is Lost immediately after the crossing attempt that leaves
  one missionary and three cannibals on the left bank. With the first two missionaries
  boarded at the start of a game, try_cross_river leaves the configuration (1, 3, RIGHT)
  and the screen PLAYING; when the boat has arrived the screen is EATING, not yet LOST.
\<close>

theorem loss_not_immediate:
  "map_sum id state (run [Click 0, Click 2, Cross] (reset_game blank_controller))
       = Inr \<lparr>missionaries_left = 1, cannibals_left = 3, boat = RIGHT\<rparr>
   \<and> map_sum id current_screen (run [Click 0, Click 2, Cross] (reset_game blank_controller))
       = Inr PLAYING
   \<and> PLAYING \<noteq> LOST
   \<and> map_sum id current_screen
        (run [Click 0, Click 2, Cross, Arrive] (reset_game blank_controller)) = Inr EATING
   \<and> EATING \<noteq> LOST"
  by (simp add: run_simps is_valid_def start_eating_animation_def)

text \<open>
  C3, amended: try_cross_river leaves the screen as it is; the loss is detected when the
  boat arrives. For every crossing that leaves the left bank unsafe (missionaries on it,
  and more cannibals than missionaries, as with one missionary and three cannibals),
  finish_crossing on arrival returns with the screen EATING, the configuration kept, and
  the losing side of start_eating_animation is 'left'.
\<close>

theorem left_bank_loss_on_arrival:
  assumes "left_unsafe (state (try_cross_river s))"
  shows "current_screen (try_cross_river s) = current_screen s
       \<and> map_sum id current_screen (finish_crossing (boat_stops (try_cross_river s))) = Inr EATING
       \<and> map_sum id state (finish_crossing (boat_stops (try_cross_river s)))
           = Inr (state (try_cross_river s))
       \<and> losing_side (state (try_cross_river s)) = Some ''left''"
proof -
  let ?t = "state (try_cross_river s)"
  from assms have v: "is_valid ?t = Inr False"
    by (simp add: is_valid_False_iff left_unsafe_def)
  from assms have g: "\<not> is_goal ?t"
    by (simp add: is_goal_def left_unsafe_def)
  from assms unsafe_banks_exclusive[of ?t] have r: "\<not> right_unsafe ?t"
    by blast
  have "current_screen (try_cross_river s) = current_screen s"
    by (simp add: try_cross_river_def Let_def)
  moreover have "losing_side ?t = Some ''left''"
    using assms r by (simp add: losing_side_def)
  ultimately show ?thesis using v g
    by (simp add: finish_crossing_def boat_stops_def Let_def start_eating_animation_def)
qed

theorem left_bank_loss_on_arrival_witness:
  "left_unsafe (state (try_cross_river (projr (run [Click 0, Click 2] (reset_game blank_controller)))))
   \<and> state (try_cross_river (projr (run [Click 0, Click 2] (reset_game blank_controller))))
       = \<lparr>missionaries_left = 1, cannibals_left = 3, boat = RIGHT\<rparr>
   \<and> map_sum id current_screen
        (finish_crossing (boat_stops
           (try_cross_river (projr (run [Click 0, Click 2] (reset_game blank_controller))))))
       = Inr EATING
   \<and> losing_side (state (try_cross_river (projr (run [Click 0, Click 2] (reset_game blank_controller)))))
       = Some ''left''"
proof -
  have u: "left_unsafe (state (try_cross_river (projr (run [Click 0, Click 2] (reset_game blank_controller)))))"
    by (simp add: run_simps left_unsafe_def)
  have t: "state (try_cross_river (projr (run [Click 0, Click 2] (reset_game blank_controller))))
       = \<lparr>missionaries_left = 1, cannibals_left = 3, boat = RIGHT\<rparr>"
    by (simp add: run_simps)
  from left_bank_loss_on_arrival[OF u] u t show ?thesis by blast
qed

subsection \<open>reset_game\<close>

text \<open>
  C7: from every controller state, whatever its screen, passengers and move count,
  reset_game gives the configuration (3, 3, LEFT), no passenger and no selected
  character, move count 0 and the PLAYING screen, with a boat at rest and six new
  characters on the left bank, none of them in the boat.
\<close>

theorem reset_game_initial:
  "state (reset_game self) = \<lparr>missionaries_left = 3, cannibals_left = 3, boat = LEFT\<rparr>
   \<and> passengers (the_boat (reset_game self)) = []
   \<and> selected_characters (reset_game self) = []
   \<and> move_count (reset_game self) = 0
   \<and> current_screen (reset_game self) = PLAYING
   \<and> is_moving (the_boat (reset_game self)) = False
   \<and> objects (reset_game self) =
       [Character_init ''missionary'' 0 ''left'', Character_init ''cannibal'' 0 ''left'',
        Character_init ''missionary'' 1 ''left'', Character_init ''cannibal'' 1 ''left'',
        Character_init ''missionary'' 2 ''left'', Character_init ''cannibal'' 2 ''left'']"
  by (simp add: reset_game_simps)

subsection \<open>handle_character_click\<close>

text \<open>
  C8: in every state of a game, a click on one of the six characters returns without an
  exception and leaves the configuration, the move counter and the screen unchanged; of
  the store only the clicked character may change. With no crossing in progress (the
  boat at rest): a boarded character leaves the passenger list, with in_boat cleared and
  its side set to the side of the boat; a character not boarded is appended to the
  passenger list exactly when its side is the side of the boat and fewer than two
  passengers are boarded; otherwise the click changes nothing. During a crossing (the
  boat moving) the guard at the head of handle_character_click makes every click a
  no-op.
\<close>

theorem click_toggles_boarding:
  assumes "reachable s" "ch \<in> set (get_all_characters s)"
  shows "\<exists>s'. handle_character_click ch s = Inr s'
       \<and> state s' = state s \<and> move_count s' = move_count s
       \<and> current_screen s' = current_screen s
       \<and> objects s' = (objects s)[ch := objects s' ! ch]
       \<and> (is_moving (the_boat s) \<longrightarrow> s' = s)
       \<and> (\<not> is_moving (the_boat s) \<longrightarrow>
            (if ch \<in> set (passengers (the_boat s)) then
               passengers (the_boat s') = remove1 ch (passengers (the_boat s))
             \<and> ch \<notin> set (passengers (the_boat s'))
             \<and> \<not> in_boat (objects s' ! ch)
             \<and> side (objects s' ! ch) = side_name (boat (state s))
             else if side (objects s ! ch) = side_name (boat (state s))
                     \<and> length (passengers (the_boat s)) < 2 then
               passengers (the_boat s') = passengers (the_boat s) @ [ch]
             \<and> in_boat (objects s' ! ch)
             \<and> side (objects s' ! ch) = side (objects s ! ch)
             else s' = s))"
proof -
  from assms(1) have w: "wf s" by (rule reachable_wf)
  from w assms(2) have len: "ch < length (objects s)"
    and ib: "in_boat (objects s ! ch) \<longleftrightarrow> ch \<in> set (passengers (the_boat s))"
    and sel: "selected_characters s = passengers (the_boat s)"
    and d: "distinct (passengers (the_boat s))"
    by (auto simp: wf_def)
  show ?thesis
  proof (cases "is_moving (the_boat s)")
    case True
    then show ?thesis by (simp add: handle_character_click_def)
  next
    case False
    show ?thesis
    proof (cases "ch \<in> set (passengers (the_boat s))")
      case True
      with False ib sel len d show ?thesis
        by (simp add: handle_character_click_def Let_def list_remove_def)
    next
      case nb: False
      with False ib sel len show ?thesis
        by (simp add: handle_character_click_def Let_def)
    qed
  qed
qed

text \<open>
  At the start of a game a click on the first cannibal boards it, and a second click on
  it empties the boat again.
\<close>

theorem click_toggles_boarding_witness:
  "reachable (reset_game blank_controller)
   \<and> 1 \<in> set (get_all_characters (reset_game blank_controller))
   \<and> \<not> is_moving (the_boat (reset_game blank_controller))
   \<and> \<not> is_moving (the_boat (projr (run [Click 1] (reset_game blank_controller))))
   \<and> map_sum id (passengers \<circ> the_boat)
        (handle_character_click 1 (reset_game blank_controller)) = Inr [1]
   \<and> reachable (projr (run [Click 1] (reset_game blank_controller)))
   \<and> 1 \<in> set (get_all_characters (projr (run [Click 1] (reset_game blank_controller))))
   \<and> map_sum id (passengers \<circ> the_boat)
        (handle_character_click 1 (projr (run [Click 1] (reset_game blank_controller)))) = Inr []"
proof -
  let ?r = "reset_game blank_controller"
  let ?b = "projr (run [Click 1] ?r)"
  have r1: "reachable ?r" by (rule reachable.reset)
  have m1: "1 \<in> set (get_all_characters ?r)"
    by (simp add: get_all_characters_def reset_game_simps)
  have e: "handle_character_click 1 ?r = Inr ?b" by (simp add: run_simps)
  have r2: "reachable ?b" by (rule reachable.click[OF r1 m1 e])
  have m2: "1 \<in> set (get_all_characters ?b)"
    by (simp add: get_all_characters_def run_simps)
  have p1: "passengers (the_boat ?r) = []" "\<not> is_moving (the_boat ?r)"
    "side (objects ?r ! 1) = side_name (boat (state ?r))"
    by (simp_all add: reset_game_simps Character_init_def side_name_def)
  have p2: "passengers (the_boat ?b) = [1]" "\<not> is_moving (the_boat ?b)"
    by (simp_all add: run_simps)
  from click_toggles_boarding[OF r1 m1] p1
  have a: "map_sum id (passengers \<circ> the_boat) (handle_character_click 1 ?r) = Inr [1]"
    by auto
  from click_toggles_boarding[OF r2 m2] p2
  have b: "map_sum id (passengers \<circ> the_boat) (handle_character_click 1 ?b) = Inr []"
    by auto
  from r1 m1 a r2 m2 b p1(2) p2(2) show ?thesis by blast
qed

subsection \<open>The bank counts\<close>

text \<open>
  C10: in every state of a game (reached from a reset by clicks on characters, crossing
  attempts, arrivals of the boat, the end of the eating animation and further resets)
  the numbers of missionaries and of cannibals on the left bank lie between 0 and 3, and
  so do the numbers on the right bank, 3 minus those on the left.
\<close>

theorem bank_counts_in_range:
  assumes "reachable s"
  shows "0 \<le> missionaries_left (state s) \<and> missionaries_left (state s) \<le> 3
       \<and> 0 \<le> cannibals_left (state s) \<and> cannibals_left (state s) \<le> 3
       \<and> 0 \<le> missionaries_right (state s) \<and> missionaries_right (state s) \<le> 3
       \<and> 0 \<le> cannibals_right (state s) \<and> cannibals_right (state s) \<le> 3"
proof -
  from assms have w: "wf s" by (rule reachable_wf)
  then have "missionaries_left (state s) = count_left (objects s) (missionaries s)"
    and "cannibals_left (state s) = count_left (objects s) (cannibals s)"
    and "length (missionaries s) = 3" "length (cannibals s) = 3"
    by (simp_all add: wf_def)
  with count_left_bounds[of "objects s" "missionaries s"]
       count_left_bounds[of "objects s" "cannibals s"]
  show ?thesis by (simp add: missionaries_right_def cannibals_right_def)
qed

text \<open>The state after the first missionary has been boarded and the boat has left.\<close>

theorem bank_counts_in_range_witness:
  "reachable (try_cross_river (projr (run [Click 0] (reset_game blank_controller))))
   \<and> state (try_cross_river (projr (run [Click 0] (reset_game blank_controller))))
       = \<lparr>missionaries_left = 2, cannibals_left = 3, boat = RIGHT\<rparr>
   \<and> 0 \<le> missionaries_left
            (state (try_cross_river (projr (run [Click 0] (reset_game blank_controller)))))
   \<and> cannibals_left
        (state (try_cross_river (projr (run [Click 0] (reset_game blank_controller))))) \<le> 3"
proof -
  let ?r = "reset_game blank_controller"
  let ?b = "projr (run [Click 0] ?r)"
  have r1: "reachable ?r" by (rule reachable.reset)
  have m1: "0 \<in> set (get_all_characters ?r)"
    by (simp add: get_all_characters_def reset_game_simps)
  have e: "handle_character_click 0 ?r = Inr ?b" by (simp add: run_simps)
  have r3: "reachable (try_cross_river ?b)"
    by (rule reachable.cross[OF reachable.click[OF r1 m1 e]])
  have t: "state (try_cross_river ?b)
           = \<lparr>missionaries_left = 2, cannibals_left = 3, boat = RIGHT\<rparr>"
    by (simp add: run_simps)
  from bank_counts_in_range[OF r3] r3 t show ?thesis by blast
qed

end
